theory Spec2Isabelle
  imports Complex_Main "HOL-Library.Multiset" "HOL-Library.Product_Lexorder"
begin

section \<open>JavaScript values used by the triage code\<close>

text \<open>
  A JavaScript number is a double. The scoring code only adds small multiples of one half
  and compares against thresholds that are exactly representable, so a number is modelled
  as an exact rational, together with the three special values the comparisons and the
  truthiness guards treat differently: \<open>NaN\<close> and the two infinities.
\<close>

datatype jsnum = NaN | NegInf | Fin rat | PosInf

text \<open>\<open>x < c\<close>, \<open>x > c\<close> and \<open>x >= c\<close> for a number \<open>x\<close> and a finite
  constant \<open>c\<close>. Every comparison with \<open>NaN\<close> is false.\<close>

fun js_lt :: "jsnum \<Rightarrow> rat \<Rightarrow> bool" where
  "js_lt NaN c = False"
| "js_lt NegInf c = True"
| "js_lt (Fin x) c = (x < c)"
| "js_lt PosInf c = False"

fun js_gt :: "jsnum \<Rightarrow> rat \<Rightarrow> bool" where
  "js_gt NaN c = False"
| "js_gt NegInf c = False"
| "js_gt (Fin x) c = (x > c)"
| "js_gt PosInf c = True"

fun js_ge :: "jsnum \<Rightarrow> rat \<Rightarrow> bool" where
  "js_ge NaN c = False"
| "js_ge NegInf c = False"
| "js_ge (Fin x) c = (x \<ge> c)"
| "js_ge PosInf c = True"

text \<open>A value of type \<open>number | undefined\<close>: \<open>None\<close> is \<open>undefined\<close>.
  In a boolean position \<open>undefined\<close>, \<open>NaN\<close> and zero are falsy; in a comparison
  \<open>undefined\<close> converts to \<open>NaN\<close>.\<close>

fun truthy :: "jsnum option \<Rightarrow> bool" where
  "truthy None = False"
| "truthy (Some NaN) = False"
| "truthy (Some (Fin x)) = (x \<noteq> 0)"
| "truthy (Some NegInf) = True"
| "truthy (Some PosInf) = True"

fun toNumber :: "jsnum option \<Rightarrow> jsnum" where
  "toNumber None = NaN"
| "toNumber (Some n) = n"

text \<open>A value of type \<open>string | number | undefined\<close>, as the vitals fields are typed.\<close>

datatype raw_num = Undefined | Num jsnum | Str string

subsection \<open>String built-ins: \<open>trim\<close>, \<open>split\<close>, \<open>parseInt\<close>\<close>

text \<open>Strings are lists of code units below 256. The white space of \<open>trim\<close> and
  \<open>parseInt\<close> in that range: tab, line feed, vertical tab, form feed, carriage return,
  space and no-break space.\<close>

definition isWhiteSpace :: "char \<Rightarrow> bool" where
  "isWhiteSpace c = (c \<in> set [CHR 0x09, CHR 0x0A, CHR 0x0B, CHR 0x0C, CHR 0x0D, CHR 0x20, CHR 0xA0])"

definition trim :: "string \<Rightarrow> string" where
  "trim s = rev (dropWhile isWhiteSpace (rev (dropWhile isWhiteSpace s)))"

text \<open>\<open>s.split(re)\<close> for a regular expression \<open>re\<close> that matches exactly one
  character of a class: the pieces between the matches, empty pieces included, so the
  result has one more element than the string has separators.\<close>

fun splitBy :: "(char \<Rightarrow> bool) \<Rightarrow> string \<Rightarrow> string list" where
  "splitBy sep [] = [[]]"
| "splitBy sep (c # cs) =
     (if sep c then [] # splitBy sep cs
      else (case splitBy sep cs of [] \<Rightarrow> [[c]] | w # ws \<Rightarrow> (c # w) # ws))"

text \<open>The value of a character as a digit: \<open>0\<close>-\<open>9\<close>, then letters of either case
  from 10; 36 for a character that is a digit in no radix.\<close>

definition digitValue :: "char \<Rightarrow> nat" where
  "digitValue c =
     (let n = (of_char c :: nat) in
      if 48 \<le> n \<and> n \<le> 57 then n - 48
      else if 97 \<le> n \<and> n \<le> 122 then n - 87
      else if 65 \<le> n \<and> n \<le> 90 then n - 55
      else 36)"

definition digitsValue :: "nat \<Rightarrow> string \<Rightarrow> nat" where
  "digitsValue R z = foldl (\<lambda>acc c. acc * R + digitValue c) 0 z"

text \<open>
  \<open>parseInt(string, radix)\<close> after ECMAScript: skip leading white space, read a sign,
  with radix 16 or no radix strip a \<open>0x\<close> prefix, take the longest prefix of digits of
  the radix; no digit gives \<open>NaN\<close>. Radix 0 stands for an omitted radix. The result is
  the exact integer: the double nearest to an integer beyond \<open>2^53\<close> compares with the
  thresholds of this program as the integer does.
\<close>

definition parseInt :: "string \<Rightarrow> nat \<Rightarrow> jsnum" where
  "parseInt str radix =
     (let S0 = dropWhile isWhiteSpace str;
          sign = (if S0 \<noteq> [] \<and> hd S0 = CHR ''-'' then - 1 else (1::int));
          S1 = (if S0 \<noteq> [] \<and> (hd S0 = CHR ''+'' \<or> hd S0 = CHR ''-'') then tl S0 else S0)
      in if radix \<noteq> 0 \<and> (radix < 2 \<or> 36 < radix) then NaN
         else
           let stripPrefix = (radix = 0 \<or> radix = 16);
               hasPrefix = (stripPrefix \<and> (take 2 S1 = ''0x'' \<or> take 2 S1 = ''0X''));
               S2 = (if hasPrefix then drop 2 S1 else S1);
               R = (if hasPrefix then 16 else if radix = 0 then 10 else radix);
               Z = takeWhile (\<lambda>c. digitValue c < R) S2
           in if Z = [] then NaN else Fin (of_int (sign * int (digitsValue R Z))))"

section \<open>The priority scorer: \<open>calculatePriority\<close>\<close>

text \<open>The nine symptom fields are set by sliders with step 1, so they are integers; the
  vitals arrive as text from the form, as numbers from a stored record, or not at all.\<close>

record symptoms =
  painLevel :: int
  breathingDifficulty :: int
  consciousnessLevel :: int
  headache :: int
  confusion :: int
  chestPain :: int
  palpitations :: int
  bleeding :: int
  nausea :: int

record vitals =
  heartRate :: raw_num
  bloodPressure :: "string option"
  temperature :: raw_num

text \<open>Normalisation of the numeric vitals: a string goes through \<open>parseInt\<close> (no radix)
  or \<open>parseFloat\<close>, anything else is kept. \<open>parseFloat\<close> rounds a decimal to a
  double, which exact rationals do not describe, so it is a parameter of the model.\<close>

fun normalizeHeartRate :: "raw_num \<Rightarrow> jsnum option" where
  "normalizeHeartRate Undefined = None"
| "normalizeHeartRate (Num n) = Some n"
| "normalizeHeartRate (Str s) = Some (parseInt s 0)"

fun normalizeTemperature :: "(string \<Rightarrow> jsnum) \<Rightarrow> raw_num \<Rightarrow> jsnum option" where
  "normalizeTemperature parseFloat Undefined = None"
| "normalizeTemperature parseFloat (Num n) = Some n"
| "normalizeTemperature parseFloat (Str s) = Some (parseFloat s)"

text \<open>The base symptom severity score.\<close>

definition score :: "symptoms \<Rightarrow> rat" where
  "score s =
     of_int (breathingDifficulty s) * 2 +
     of_int (chestPain s) * 2 +
     of_int (consciousnessLevel s) * 2 +
     of_int (bleeding s) * (3 / 2) +
     of_int (painLevel s) +
     of_int (palpitations s) +
     of_int (confusion s) +
     of_int (headache s) * (1 / 2) +
     of_int (nausea s) * (1 / 2)"

text \<open>The three groups of statements that add to \<open>modifiers\<close>, each as the amount it
  adds.\<close>

definition heartRateModifier :: "jsnum option \<Rightarrow> rat" where
  "heartRateModifier hr =
     (if truthy hr \<and> (js_lt (toNumber hr) 45 \<or> js_gt (toNumber hr) 130) then 8
      else if truthy hr \<and> (js_lt (toNumber hr) 55 \<or> js_gt (toNumber hr) 110) then 4
      else 0)"

definition temperatureModifier :: "jsnum option \<Rightarrow> rat" where
  "temperatureModifier t =
     (if truthy t \<and> js_ge (toNumber t) 103 then 4
      else if truthy t \<and> js_ge (toNumber t) (203 / 2) then 2
      else 0)"

definition isBpSeparator :: "char \<Rightarrow> bool" where
  "isBpSeparator c = (c = CHR ''/'' \<or> c = CHR ''-'')"

definition bpParts :: "string \<Rightarrow> jsnum list" where
  "bpParts s = map (\<lambda>p. parseInt (trim p) 10) (splitBy isBpSeparator s)"

definition bpPoints :: "jsnum \<Rightarrow> jsnum \<Rightarrow> rat" where
  "bpPoints sys dia =
     (if js_ge sys 180 \<or> js_ge dia 120 then 6
      else if js_ge sys 160 \<or> js_ge dia 100 then 3
      else 0)
     + (if js_lt sys 85 \<or> js_lt dia 55 then 5 else 0)"

definition bloodPressureModifier :: "string option \<Rightarrow> rat" where
  "bloodPressureModifier bp =
     (case bp of
        None \<Rightarrow> 0
      | Some s \<Rightarrow>
          if s = [] then 0
          else
            let parts = bpParts s
            in if 2 \<le> length parts then bpPoints (parts ! 0) (parts ! 1) else 0)"

definition modifiers :: "(string \<Rightarrow> jsnum) \<Rightarrow> vitals \<Rightarrow> rat" where
  "modifiers parseFloat v =
     heartRateModifier (normalizeHeartRate (heartRate v))
     + temperatureModifier (normalizeTemperature parseFloat (temperature v))
     + bloodPressureModifier (bloodPressure v)"

definition totalScore :: "(string \<Rightarrow> jsnum) \<Rightarrow> symptoms \<Rightarrow> vitals \<Rightarrow> rat" where
  "totalScore parseFloat s v = score s + modifiers parseFloat v"

definition calculatePriority :: "(string \<Rightarrow> jsnum) \<Rightarrow> symptoms \<Rightarrow> vitals \<Rightarrow> int" where
  "calculatePriority parseFloat s v =
     (let t = totalScore parseFloat s v
      in if 55 \<le> t then 1
         else if 35 \<le> t then 2
         else if 20 \<le> t then 3
         else if 10 \<le> t then 4
         else 5)"

text \<open>The initial symptom vector of the form, and a record with no vitals.\<close>

definition noSymptoms :: symptoms where
  "noSymptoms =
     \<lparr>painLevel = 0, breathingDifficulty = 0, consciousnessLevel = 0, headache = 0,
      confusion = 0, chestPain = 0, palpitations = 0, bleeding = 0, nausea = 0\<rparr>"

definition noVitals :: vitals where
  "noVitals = \<lparr>heartRate = Undefined, bloodPressure = None, temperature = Undefined\<rparr>"

section \<open>The queue: patients, submission and status updates\<close>

datatype status = Waiting | InProgress | Completed

text \<open>The body of the POST request built by \<open>handleSubmitTriage\<close>; \<open>age\<close> is the
  number \<open>parseInt\<close> returns, \<open>arrivalTime\<close> a point in time in milliseconds.\<close>

record patientData =
  name :: string
  age :: jsnum
  gender :: string
  insuranceType :: string
  emergencyContact :: string
  symptoms :: symptoms
  vitals :: vitals
  chiefComplaint :: string
  status :: status
  arrivalTime :: int

text \<open>The interface \<open>Patient\<close>: the fields above and \<open>id\<close>, \<open>priority\<close> and
  \<open>estimatedWaitTime\<close>.\<close>

record patient = patientData +
  pat_id :: string
  priority :: int
  estimatedWaitTime :: int

text \<open>The form state \<open>formData\<close>; every input is text, the three vitals included.\<close>

record formData =
  form_name :: string
  form_age :: string
  form_gender :: string
  form_patientId :: string
  form_insuranceType :: string
  form_emergencyContact :: string
  form_chiefComplaint :: string
  form_symptoms :: symptoms
  form_heartRate :: string
  form_bloodPressure :: string
  form_temperature :: string

text \<open>The comparator both \<open>sort\<close> calls pass, with its table \<open>statusOrder\<close>.\<close>

fun statusOrder :: "status \<Rightarrow> int" where
  "statusOrder Waiting = 1"
| "statusOrder InProgress = 2"
| "statusOrder Completed = 3"

definition compareQueue :: "patient \<Rightarrow> patient \<Rightarrow> int" where
  "compareQueue a b =
     (if statusOrder (status a) \<noteq> statusOrder (status b)
      then statusOrder (status a) - statusOrder (status b)
      else priority a - priority b)"

text \<open>\<open>Array.prototype.sort\<close> with a comparator is a stable sort: \<open>a\<close> goes before
  \<open>b\<close> when the comparator is negative, and elements that compare equal keep their
  order. For a consistent comparator that fixes the result, whatever the algorithm; here
  it is computed by insertion from the right.\<close>

fun insertBy :: "('a \<Rightarrow> 'a \<Rightarrow> int) \<Rightarrow> 'a \<Rightarrow> 'a list \<Rightarrow> 'a list" where
  "insertBy cmp x [] = [x]"
| "insertBy cmp x (y # ys) = (if cmp x y \<le> 0 then x # y # ys else y # insertBy cmp x ys)"

definition jsSort :: "('a \<Rightarrow> 'a \<Rightarrow> int) \<Rightarrow> 'a list \<Rightarrow> 'a list" where
  "jsSort cmp xs = foldr (insertBy cmp) xs []"

text \<open>The state update of \<open>handleSubmitTriage\<close>: append the new patient, sort.\<close>

definition insertPatient :: "patient list \<Rightarrow> patient \<Rightarrow> patient list" where
  "insertPatient prev newPatient = jsSort compareQueue (prev @ [newPatient])"

text \<open>The callback \<open>onUpdatePatient\<close>: set the status of the records with the id, sort.\<close>

definition onUpdatePatient :: "patient list \<Rightarrow> string \<Rightarrow> status \<Rightarrow> patient list" where
  "onUpdatePatient prev i st =
     jsSort compareQueue (map (\<lambda>p. if pat_id p = i then p\<lparr>status := st\<rparr> else p) prev)"

text \<open>\<open>handleSubmitTriage\<close>. The two ways it ends without a new patient are its two
  error toasts. The server is a parameter \<open>post\<close>: \<open>None\<close> when the request throws or
  the response is not ok, otherwise the patient in the response. \<open>now\<close> is the clock.
  The first error of \<open>submit_error\<close> is not the handler's: it is the browser's refusal
  to submit the form, defined below.\<close>

datatype submit_error = ConstraintViolation | MissingInformation | FailedToAddPatient

definition newPatientData :: "(string \<Rightarrow> jsnum) \<Rightarrow> formData \<Rightarrow> int \<Rightarrow> patientData" where
  "newPatientData parseFloat f now =
     \<lparr>name = form_name f,
      age = parseInt (form_age f) 0,
      gender = form_gender f,
      insuranceType = form_insuranceType f,
      emergencyContact = form_emergencyContact f,
      symptoms = form_symptoms f,
      vitals =
        \<lparr>heartRate =
           (if form_heartRate f \<noteq> [] then Num (parseInt (form_heartRate f) 0) else Undefined),
         bloodPressure =
           (if form_bloodPressure f \<noteq> [] then Some (form_bloodPressure f) else None),
         temperature =
           (if form_temperature f \<noteq> [] then Num (parseFloat (form_temperature f))
            else Undefined)\<rparr>,
      chiefComplaint = form_chiefComplaint f,
      status = Waiting,
      arrivalTime = now\<rparr>"

definition handleSubmitTriage ::
  "(string \<Rightarrow> jsnum) \<Rightarrow> (patientData \<Rightarrow> patient option) \<Rightarrow> int \<Rightarrow> formData \<Rightarrow> patient list
     \<Rightarrow> submit_error + patient list" where
  "handleSubmitTriage parseFloat post now f prev =
     (if form_name f = [] \<or> form_age f = [] \<or> form_gender f = [] \<or> form_chiefComplaint f = []
      then Inl MissingInformation
      else
        (case post (newPatientData parseFloat f now) of
           None \<Rightarrow> Inl FailedToAddPatient
         | Some newPatient \<Rightarrow> Inr (insertPatient prev newPatient)))"

subsection \<open>The form's own constraints\<close>















subsection \<open>The other changes of the patient list\<close>

text \<open>\<open>fetchPatients\<close> replaces the list by the server's answer, in the server's order.\<close>

definition fetchPatients :: "patient list \<Rightarrow> patient list \<Rightarrow> patient list" where
  "fetchPatients prev data = data"

text \<open>The Emergency Input button puts a fixed record, stamped with the clock, in front
  of the list and does not sort. Its id is \<open>EMG-\<close> followed by the clock in decimal;
  the handler reads the clock once for the id and once for the arrival time, and the two
  readings are taken as one instant.\<close>

definition digitChar :: "nat \<Rightarrow> char" where
  "digitChar d = ''0123456789'' ! d"

fun showNat :: "nat \<Rightarrow> string" where
  "showNat n = (if n < 10 then [digitChar n] else showNat (n div 10) @ [digitChar (n mod 10)])"

declare showNat.simps [simp del]

definition showInt :: "int \<Rightarrow> string" where
  "showInt i = (if i < 0 then CHR ''-'' # showNat (nat (- i)) else showNat (nat i))"

definition emergencyPatient :: "int \<Rightarrow> patient" where
  "emergencyPatient now =
     \<lparr>name = ''Emergency Patient'', age = Fin 45, gender = ''male'',
      insuranceType = ''private'', emergencyContact = ''911'',
      symptoms =
        \<lparr>painLevel = 10, breathingDifficulty = 8, consciousnessLevel = 6, headache = 2,
         confusion = 3, chestPain = 9, palpitations = 7, bleeding = 8, nausea = 4\<rparr>,
      vitals =
        \<lparr>heartRate = Num (Fin 140), bloodPressure = Some ''180/110'',
         temperature = Num (Fin (506 / 5))\<rparr>,
      chiefComplaint = ''Severe chest pain and difficulty breathing'',
      status = Waiting, arrivalTime = now,
      pat_id = ''EMG-'' @ showInt now, priority = 1, estimatedWaitTime = 0\<rparr>"

definition emergencyInput :: "patient list \<Rightarrow> int \<Rightarrow> patient list" where
  "emergencyInput prev now = emergencyPatient now # prev"

text \<open>The button a queue card shows: Start Treatment on a waiting record, Mark Complete
  on one in progress, none on a completed one; the status it asks for.\<close>

fun statusButton :: "status \<Rightarrow> status option" where
  "statusButton Waiting = Some InProgress"
| "statusButton InProgress = Some Completed"
| "statusButton Completed = None"

text \<open>\<open>handleStatusUpdate\<close> sends the request and waits; \<open>ok\<close> tells whether an ok
  response came. Only then it calls \<open>onUpdatePatient\<close>; otherwise it shows its error and
  the list stays as it is.\<close>

datatype update_error = UpdateFailed

definition handleStatusUpdate ::
  "bool \<Rightarrow> patient list \<Rightarrow> string \<Rightarrow> status \<Rightarrow> update_error + patient list" where
  "handleStatusUpdate ok prev patientId newStatus =
     (if ok then Inr (onUpdatePatient prev patientId newStatus) else Inl UpdateFailed)"

text \<open>
  The component as a state machine. The state is the patient list and the status requests
  that are sent and not yet answered. The events: the list arrives from the server; a
  submitted triage is answered with its record; the Emergency Input button; a click on the
  button of the card at a position; the answer to a pending request. A button stays
  clickable until the answer to its request arrives, and answers may arrive in any order.
\<close>

record app =
  patients :: "patient list"
  pending :: "(string \<times> status) list"

datatype event =
    Loaded "patient list"
  | Submitted patient
  | EmergencyInput int
  | Click nat
  | Respond nat bool

definition initialApp :: app where
  "initialApp = \<lparr>patients = [], pending = []\<rparr>"

fun step :: "app \<Rightarrow> event \<Rightarrow> app" where
  "step s (Loaded data) = s\<lparr>patients := fetchPatients (patients s) data\<rparr>"
| "step s (Submitted p) = s\<lparr>patients := insertPatient (patients s) p\<rparr>"
| "step s (EmergencyInput now) = s\<lparr>patients := emergencyInput (patients s) now\<rparr>"
| "step s (Click k) =
     (if k < length (patients s) then
        (case statusButton (status (patients s ! k)) of
           None \<Rightarrow> s
         | Some st \<Rightarrow> s\<lparr>pending := pending s @ [(pat_id (patients s ! k), st)]\<rparr>)
      else s)"
| "step s (Respond n ok) =
     (if n < length (pending s) then
        s\<lparr>patients :=
            (case handleStatusUpdate ok (patients s) (fst (pending s ! n)) (snd (pending s ! n)) of
               Inl e \<Rightarrow> patients s
             | Inr q \<Rightarrow> q),
          pending := take n (pending s) @ drop (Suc n) (pending s)\<rparr>
      else s)"

text \<open>A patient with the given id, status, priority and arrival time, the other fields
  empty: the records of the examples below.\<close>

definition examplePatient :: "string \<Rightarrow> status \<Rightarrow> int \<Rightarrow> int \<Rightarrow> patient" where
  "examplePatient i st pr t =
     \<lparr>name = [], age = Fin 0, gender = [], insuranceType = [], emergencyContact = [],
      symptoms = noSymptoms, vitals = noVitals, chiefComplaint = [], status = st,
      arrivalTime = t, pat_id = i, priority = pr, estimatedWaitTime = 0\<rparr>"


section \<open>Properties of the queue, as predicates\<close>

text \<open>The sort key the comparator induces, the order the queue view is claimed to have,
  the waiting records of one tier, and ascending arrival time.\<close>

definition queueKey :: "patient \<Rightarrow> int \<times> int" where
  "queueKey p = (statusOrder (status p), priority p)"

definition queueBefore :: "patient \<Rightarrow> patient \<Rightarrow> bool" where
  "queueBefore a b =
     (statusOrder (status a) < statusOrder (status b)
      \<or> (status a = status b \<and> priority a \<le> priority b))"

definition waitingOfTier :: "int \<Rightarrow> patient \<Rightarrow> bool" where
  "waitingOfTier t p = (status p = Waiting \<and> priority p = t)"

definition arrivalOrdered :: "patient list \<Rightarrow> bool" where
  "arrivalOrdered q = sorted_wrt (\<lambda>a b. arrivalTime a \<le> arrivalTime b) q"

definition setStatus :: "string \<Rightarrow> status \<Rightarrow> patient \<Rightarrow> patient" where
  "setStatus i st p = (if pat_id p = i then p\<lparr>status := st\<rparr> else p)"

text \<open>The events that cannot put two waiting records of tier \<open>t\<close> out of arrival order:
  a loaded list that has them in order, a submitted record that arrived no earlier than
  any record in the list, an Emergency Input when \<open>t\<close> is not its tier 1 or no waiting
  record of tier 1 arrived before it, and every click and answer.\<close>

fun fifoEvent :: "int \<Rightarrow> app \<Rightarrow> event \<Rightarrow> bool" where
  "fifoEvent t s (Loaded data) = arrivalOrdered (filter (waitingOfTier t) data)"
| "fifoEvent t s (Submitted p) = (\<forall>x \<in> set (patients s). arrivalTime x \<le> arrivalTime p)"
| "fifoEvent t s (EmergencyInput now) =
     (t \<noteq> 1 \<or> (\<forall>x \<in> set (filter (waitingOfTier 1) (patients s)). now \<le> arrivalTime x))"
| "fifoEvent t s (Click k) = True"
| "fifoEvent t s (Respond n ok) = True"

fun fifoEvents :: "int \<Rightarrow> app \<Rightarrow> event list \<Rightarrow> bool" where
  "fifoEvents t s [] = True"
| "fifoEvents t s (e # es) = (fifoEvent t s e \<and> fifoEvents t (step s e) es)"

text \<open>No pending request asks for the status waiting.\<close>

definition forwardOnly :: "app \<Rightarrow> bool" where
  "forwardOnly s = list_all (\<lambda>r. snd r \<noteq> Waiting) (pending s)"




section \<open>Scoring\<close>

lemma modifiers_noVitals: "modifiers pf noVitals = 0"
  by (simp add: modifiers_def noVitals_def heartRateModifier_def temperatureModifier_def
      bloodPressureModifier_def)

text \<open>
  C1. The total is the weighted sum of the nine symptom fields (weights 2, 2, 2, 1.5, 1,
  1, 1, 0.5, 0.5) plus the vital-sign modifiers, and the tier is read off the total by the
  inclusive thresholds 55, 35, 20, 10, highest first. All-zero symptoms without vitals give
  tier 5; breathing difficulty 10 alone gives total 20 and tier 3.
\<close>

theorem calculatePriority_tiers:
  "totalScore pf s v =
     2 * of_int (breathingDifficulty s) + 2 * of_int (chestPain s)
     + 2 * of_int (consciousnessLevel s) + (3 / 2) * of_int (bleeding s)
     + of_int (painLevel s) + of_int (palpitations s) + of_int (confusion s)
     + (1 / 2) * of_int (headache s) + (1 / 2) * of_int (nausea s)
     + modifiers pf v
   \<and> (calculatePriority pf s v = 1) = (55 \<le> totalScore pf s v)
   \<and> (calculatePriority pf s v = 2) = (35 \<le> totalScore pf s v \<and> totalScore pf s v < 55)
   \<and> (calculatePriority pf s v = 3) = (20 \<le> totalScore pf s v \<and> totalScore pf s v < 35)
   \<and> (calculatePriority pf s v = 4) = (10 \<le> totalScore pf s v \<and> totalScore pf s v < 20)
   \<and> (calculatePriority pf s v = 5) = (totalScore pf s v < 10)
   \<and> calculatePriority pf noSymptoms noVitals = 5
   \<and> totalScore pf (noSymptoms\<lparr>breathingDifficulty := 10\<rparr>) noVitals = 20
   \<and> calculatePriority pf (noSymptoms\<lparr>breathingDifficulty := 10\<rparr>) noVitals = 3"
proof -
  have sum: "totalScore pf s v =
     2 * of_int (breathingDifficulty s) + 2 * of_int (chestPain s)
     + 2 * of_int (consciousnessLevel s) + (3 / 2) * of_int (bleeding s)
     + of_int (painLevel s) + of_int (palpitations s) + of_int (confusion s)
     + (1 / 2) * of_int (headache s) + (1 / 2) * of_int (nausea s)
     + modifiers pf v"
    by (simp add: totalScore_def score_def)
  have tiers: "(calculatePriority pf s v = 1) = (55 \<le> totalScore pf s v)"
    "(calculatePriority pf s v = 2) = (35 \<le> totalScore pf s v \<and> totalScore pf s v < 55)"
    "(calculatePriority pf s v = 3) = (20 \<le> totalScore pf s v \<and> totalScore pf s v < 35)"
    "(calculatePriority pf s v = 4) = (10 \<le> totalScore pf s v \<and> totalScore pf s v < 20)"
    "(calculatePriority pf s v = 5) = (totalScore pf s v < 10)"
    by (auto simp: calculatePriority_def Let_def)
  have zero: "totalScore pf noSymptoms noVitals = 0"
    by (simp add: totalScore_def score_def modifiers_noVitals noSymptoms_def)
  have ten: "totalScore pf (noSymptoms\<lparr>breathingDifficulty := 10\<rparr>) noVitals = 20"
    by (simp add: totalScore_def score_def modifiers_noVitals noSymptoms_def)
  have p5: "calculatePriority pf noSymptoms noVitals = 5"
    by (simp add: calculatePriority_def Let_def zero)
  have p3: "calculatePriority pf (noSymptoms\<lparr>breathingDifficulty := 10\<rparr>) noVitals = 3"
    by (simp add: calculatePriority_def Let_def ten)
  from sum tiers zero ten p5 p3 show ?thesis by blast
qed

section \<open>Queue order\<close>

lemma statusOrder_inj: "(statusOrder a = statusOrder b) = (a = b)"
  by (cases a; cases b) simp_all

lemma compareQueue_le: "(compareQueue a b \<le> 0) = (queueKey a \<le> queueKey b)"
  by (auto simp: compareQueue_def queueKey_def)

lemma queueBefore_key: "queueBefore a b = (queueKey a \<le> queueKey b)"
  by (auto simp: queueBefore_def queueKey_def statusOrder_inj)

lemma insertBy_insort: "insertBy compareQueue x xs = insort_key queueKey x xs"
  by (induction xs) (simp_all add: compareQueue_le)

lemma jsSort_sort_key: "jsSort compareQueue xs = sort_key queueKey xs"
  by (induction xs) (simp_all add: jsSort_def insertBy_insort)

lemma sorted_wrt_queueBefore: "sorted_wrt queueBefore xs = sorted (map queueKey xs)"
  by (induction xs) (auto simp: queueBefore_key)

lemma jsSort_ordered: "sorted_wrt queueBefore (jsSort compareQueue xs)"
  by (simp add: sorted_wrt_queueBefore jsSort_sort_key)

lemma mset_jsSort: "mset (jsSort compareQueue xs) = mset xs"
  by (simp add: jsSort_sort_key)

lemma jsSort_id: "sorted_wrt queueBefore xs \<Longrightarrow> jsSort compareQueue xs = xs"
  by (simp add: sorted_wrt_queueBefore jsSort_sort_key sort_key_id_if_sorted)

lemma waitingOfTier_key: "waitingOfTier t = (\<lambda>p. queueKey p = (1, t))"
proof (rule ext)
  fix p show "waitingOfTier t p = (queueKey p = (1, t))"
    by (cases "status p") (auto simp: waitingOfTier_def queueKey_def)
qed

lemma jsSort_stable:
  "filter (waitingOfTier t) (jsSort compareQueue xs) = filter (waitingOfTier t) xs"
  by (simp add: jsSort_sort_key waitingOfTier_key sort_key_stable)

lemma arrivalOrdered_filter: "arrivalOrdered q \<Longrightarrow> arrivalOrdered (filter P q)"
  by (simp add: arrivalOrdered_def sorted_wrt_filter)

lemma fifo_insert:
  assumes "arrivalOrdered (filter (waitingOfTier t) q)"
    and "\<forall>x \<in> set q. arrivalTime x \<le> arrivalTime p"
  shows "arrivalOrdered (filter (waitingOfTier t) (insertPatient q p))"
  using assms by (auto simp: insertPatient_def jsSort_stable arrivalOrdered_def sorted_wrt_append)

lemma setStatus_fun: "(\<lambda>p. if pat_id p = i then p\<lparr>status := st\<rparr> else p) = setStatus i st"
  by (rule ext) (simp add: setStatus_def)

lemma onUpdatePatient_setStatus:
  "onUpdatePatient q i st = jsSort compareQueue (map (setStatus i st) q)"
  by (simp only: onUpdatePatient_def setStatus_fun)

lemma jsSort_stable_key:
  "filter (\<lambda>p. queueKey p = k) (jsSort compareQueue xs) = filter (\<lambda>p. queueKey p = k) xs"
  by (simp add: jsSort_sort_key sort_key_stable)

lemma emergency_first:
  assumes "sorted_wrt queueBefore prev"
    and "\<forall>x \<in> set prev. status x = Waiting \<longrightarrow> 1 \<le> priority x"
  shows "sorted_wrt queueBefore (emergencyInput prev now)"
proof -
  have "queueBefore (emergencyPatient now) x" if "x \<in> set prev" for x
  proof (cases "status x")
    case Waiting
    with that assms(2) show ?thesis by (simp add: queueBefore_def emergencyPatient_def)
  next
    case InProgress
    then show ?thesis by (simp add: queueBefore_def emergencyPatient_def)
  next
    case Completed
    then show ?thesis by (simp add: queueBefore_def emergencyPatient_def)
  qed
  with assms(1) show ?thesis by (simp add: emergencyInput_def)
qed

text \<open>
  C2 (as stated it fails, see the counterexample). After an insert by the triage form and
  after an accepted status update the list holds the same records, with the new one added
  or the status set, ordered by lifecycle rank first (waiting, in-progress, completed) and
  by priority tier second, lower tier first. For the records (completed, 1), (waiting, 3),
  (waiting, 1) the two waiting records come first, tier 1 before tier 3, whether the last
  step was the insert or the update. The Emergency Input insert does not sort: it puts its
  waiting tier-1 record first, which leaves an ordered list ordered when no waiting record
  has a tier below 1.
\<close>

theorem queue_order_after_insert_or_update:
  "sorted_wrt queueBefore (insertPatient prev p)
   \<and> mset (insertPatient prev p) = mset prev + {#p#}
   \<and> (\<forall>q. handleSubmitTriage pf post now f prev = Inr q \<longrightarrow> sorted_wrt queueBefore q)
   \<and> sorted_wrt queueBefore (onUpdatePatient prev i st)
   \<and> mset (onUpdatePatient prev i st) = mset (map (setStatus i st) prev)
   \<and> (\<forall>q. handleStatusUpdate ok prev i st = Inr q \<longrightarrow>
         sorted_wrt queueBefore q \<and> mset q = mset (map (setStatus i st) prev))
   \<and> emergencyInput prev now = emergencyPatient now # prev
   \<and> (sorted_wrt queueBefore prev \<and> (\<forall>x \<in> set prev. status x = Waiting \<longrightarrow> 1 \<le> priority x)
        \<longrightarrow> sorted_wrt queueBefore (emergencyInput prev now))
   \<and> insertPatient [examplePatient ''a'' Completed 1 10, examplePatient ''b'' Waiting 3 20]
        (examplePatient ''c'' Waiting 1 30)
      = [examplePatient ''c'' Waiting 1 30, examplePatient ''b'' Waiting 3 20,
         examplePatient ''a'' Completed 1 10]
   \<and> onUpdatePatient [examplePatient ''a'' InProgress 1 10, examplePatient ''b'' Waiting 3 20,
         examplePatient ''c'' Waiting 1 30] ''a'' Completed
      = [examplePatient ''c'' Waiting 1 30, examplePatient ''b'' Waiting 3 20,
         examplePatient ''a'' Completed 1 10]"
proof -
  have ins: "sorted_wrt queueBefore (insertPatient prev x)" for x
    by (simp add: insertPatient_def jsSort_ordered)
  have ms: "mset (insertPatient prev p) = mset prev + {#p#}"
    by (simp add: insertPatient_def mset_jsSort)
  have sub: "\<forall>q. handleSubmitTriage pf post now f prev = Inr q \<longrightarrow> sorted_wrt queueBefore q"
    by (auto simp: handleSubmitTriage_def ins split: if_splits option.splits)
  have upd: "sorted_wrt queueBefore (onUpdatePatient prev i st)"
    by (simp add: onUpdatePatient_def jsSort_ordered)
  have umset: "mset (onUpdatePatient prev i st) = mset (map (setStatus i st) prev)"
    by (simp only: onUpdatePatient_setStatus mset_jsSort)
  have hsu: "\<forall>q. handleStatusUpdate ok prev i st = Inr q \<longrightarrow>
         sorted_wrt queueBefore q \<and> mset q = mset (map (setStatus i st) prev)"
    using upd umset by (auto simp: handleStatusUpdate_def split: if_splits)
  have em: "emergencyInput prev now = emergencyPatient now # prev"
    by (simp add: emergencyInput_def)
  have emo: "sorted_wrt queueBefore prev \<and> (\<forall>x \<in> set prev. status x = Waiting \<longrightarrow> 1 \<le> priority x)
        \<longrightarrow> sorted_wrt queueBefore (emergencyInput prev now)"
    using emergency_first by blast
  have ex: "insertPatient [examplePatient ''a'' Completed 1 10, examplePatient ''b'' Waiting 3 20]
        (examplePatient ''c'' Waiting 1 30)
      = [examplePatient ''c'' Waiting 1 30, examplePatient ''b'' Waiting 3 20,
         examplePatient ''a'' Completed 1 10]"
    by (simp add: insertPatient_def jsSort_def compareQueue_def examplePatient_def)
  have ex2: "onUpdatePatient [examplePatient ''a'' InProgress 1 10, examplePatient ''b'' Waiting 3 20,
         examplePatient ''c'' Waiting 1 30] ''a'' Completed
      = [examplePatient ''c'' Waiting 1 30, examplePatient ''b'' Waiting 3 20,
         examplePatient ''a'' Completed 1 10]"
    by (simp add: onUpdatePatient_def jsSort_def compareQueue_def examplePatient_def)
  show ?thesis by (intro conjI ins ms sub upd umset hsu em emo ex ex2)
qed

theorem queue_order_after_insert_or_update_witness:
  "handleStatusUpdate True [examplePatient ''a'' InProgress 1 10, examplePatient ''b'' Waiting 3 20]
     ''a'' Completed
   = Inr [examplePatient ''b'' Waiting 3 20, examplePatient ''a'' Completed 1 10]
   \<and> sorted_wrt queueBefore [examplePatient ''b'' Waiting 3 20, examplePatient ''a'' Completed 1 10]
   \<and> sorted_wrt queueBefore [examplePatient ''b'' Waiting 3 20]
   \<and> sorted_wrt queueBefore (emergencyInput [examplePatient ''b'' Waiting 3 20] 50)"
proof -
  let ?q = "[examplePatient ''a'' InProgress 1 10, examplePatient ''b'' Waiting 3 20]"
  let ?r = "[examplePatient ''b'' Waiting 3 20, examplePatient ''a'' Completed 1 10]"
  note t = queue_order_after_insert_or_update
  have h: "handleStatusUpdate True ?q ''a'' Completed = Inr ?r"
    by (simp add: handleStatusUpdate_def onUpdatePatient_def jsSort_def compareQueue_def
        examplePatient_def)
  have a: "sorted_wrt queueBefore ?r"
    using t [where prev = ?q and i = "''a''" and st = Completed and ok = True,
        THEN conjunct2, THEN conjunct2, THEN conjunct2, THEN conjunct2, THEN conjunct2,
        THEN conjunct1, THEN spec, THEN mp, OF h]
    by (rule conjunct1)
  have s1: "sorted_wrt queueBefore [examplePatient ''b'' Waiting 3 20]" by simp
  have s2: "\<forall>x \<in> set [examplePatient ''b'' Waiting 3 20]. status x = Waiting \<longrightarrow> 1 \<le> priority x"
    by (simp add: examplePatient_def)
  have b: "sorted_wrt queueBefore (emergencyInput [examplePatient ''b'' Waiting 3 20] 50)"
    using t [where prev = "[examplePatient ''b'' Waiting 3 20]" and now = 50,
        THEN conjunct2, THEN conjunct2, THEN conjunct2, THEN conjunct2, THEN conjunct2,
        THEN conjunct2, THEN conjunct2, THEN conjunct1, THEN mp, OF conjI, OF s1 s2] .
  show ?thesis by (intro conjI h a s1 b)
qed

theorem queue_order_emergency_counterexample:
  "patients (foldl step initialApp
       [Loaded [examplePatient ''a'' Completed 1 10, examplePatient ''b'' Waiting 3 20],
        EmergencyInput 50])
     = [emergencyPatient 50, examplePatient ''a'' Completed 1 10, examplePatient ''b'' Waiting 3 20]
   \<and> \<not> sorted_wrt queueBefore
       [emergencyPatient 50, examplePatient ''a'' Completed 1 10, examplePatient ''b'' Waiting 3 20]"
  by (simp add: initialApp_def fetchPatients_def emergencyInput_def queueBefore_def
      examplePatient_def)

subsection \<open>Arrival order among waiting records of one tier\<close>

lemma filter_setStatus:
  assumes "st \<noteq> Waiting"
  shows "filter (waitingOfTier t) (map (setStatus i st) q)
         = filter (\<lambda>p. pat_id p \<noteq> i) (filter (waitingOfTier t) q)"
  using assms by (induction q) (auto simp: waitingOfTier_def setStatus_def)

lemma fifo_setStatus:
  assumes "arrivalOrdered (filter (waitingOfTier t) q)" and "st \<noteq> Waiting"
  shows "arrivalOrdered (filter (waitingOfTier t) (onUpdatePatient q i st))"
proof -
  have "arrivalOrdered (filter (\<lambda>p. pat_id p \<noteq> i) (filter (waitingOfTier t) q))"
    using assms(1) by (rule arrivalOrdered_filter)
  then show ?thesis
    by (simp only: onUpdatePatient_setStatus jsSort_stable filter_setStatus [OF assms(2)])
qed

lemma fifo_emergency:
  assumes "arrivalOrdered (filter (waitingOfTier t) q)"
    and "t \<noteq> 1 \<or> (\<forall>x \<in> set (filter (waitingOfTier 1) q). now \<le> arrivalTime x)"
  shows "arrivalOrdered (filter (waitingOfTier t) (emergencyInput q now))"
proof (cases "t = 1")
  case True
  with assms(2) have le: "\<forall>x \<in> set (filter (waitingOfTier 1) q). now \<le> arrivalTime x"
    by simp
  have w: "waitingOfTier 1 (emergencyPatient now)"
    by (simp add: waitingOfTier_def emergencyPatient_def)
  have a: "arrivalTime (emergencyPatient now) = now"
    by (simp add: emergencyPatient_def)
  from assms(1) True have "arrivalOrdered (filter (waitingOfTier 1) q)" by simp
  with le w a have "arrivalOrdered (filter (waitingOfTier 1) (emergencyInput q now))"
    by (simp add: emergencyInput_def arrivalOrdered_def)
  with True show ?thesis by simp
next
  case False
  then have "\<not> waitingOfTier t (emergencyPatient now)"
    by (simp add: waitingOfTier_def emergencyPatient_def)
  with assms(1) show ?thesis by (simp add: emergencyInput_def)
qed

lemma statusButton_forward: "statusButton s = Some st \<Longrightarrow> st \<noteq> Waiting"
  by (cases s) auto

lemma forwardOnly_step: "forwardOnly s \<Longrightarrow> forwardOnly (step s e)"
proof (cases e)
  case (Click k)
  assume f: "forwardOnly s"
  show ?thesis
  proof (cases "k < length (patients s)")
    case True
    show ?thesis
    proof (cases "statusButton (status (patients s ! k))")
      case None
      with f Click True show ?thesis by simp
    next
      case (Some st)
      then have "st \<noteq> Waiting" by (rule statusButton_forward)
      with f Click True Some show ?thesis by (simp add: forwardOnly_def)
    qed
  next
    case False
    with f Click show ?thesis by simp
  qed
next
  case (Respond n ok)
  assume f: "forwardOnly s"
  have "set (take n (pending s) @ drop (Suc n) (pending s)) \<subseteq> set (pending s)"
    using set_take_subset set_drop_subset by fastforce
  with f Respond show ?thesis
    by (auto simp: forwardOnly_def list_all_iff)
qed (simp_all add: forwardOnly_def)

lemma forwardOnly_run: "forwardOnly s \<Longrightarrow> forwardOnly (foldl step s evs)"
  by (induction evs arbitrary: s) (simp_all add: forwardOnly_step)

lemma fifo_step:
  assumes "fifoEvent t s e" and "forwardOnly s"
    and "arrivalOrdered (filter (waitingOfTier t) (patients s))"
  shows "arrivalOrdered (filter (waitingOfTier t) (patients (step s e)))"
proof (cases e)
  case (Loaded data)
  with assms(1) show ?thesis by (simp add: fetchPatients_def)
next
  case (Submitted p)
  with assms(1,3) show ?thesis by (simp add: fifo_insert)
next
  case (EmergencyInput now)
  with assms(1,3) show ?thesis by (simp add: fifo_emergency)
next
  case (Click k)
  with assms(3) show ?thesis by (simp split: option.splits)
next
  case (Respond n ok)
  show ?thesis
  proof (cases "n < length (pending s) \<and> ok")
    case True
    then have "pending s ! n \<in> set (pending s)" by simp
    with assms(2) have "snd (pending s ! n) \<noteq> Waiting"
      by (simp add: forwardOnly_def list_all_iff)
    with assms(3) have "arrivalOrdered (filter (waitingOfTier t)
        (onUpdatePatient (patients s) (fst (pending s ! n)) (snd (pending s ! n))))"
      by (rule fifo_setStatus)
    with True Respond show ?thesis by (simp add: handleStatusUpdate_def)
  next
    case False
    with assms(3) Respond show ?thesis by (auto simp: handleStatusUpdate_def)
  qed
qed

lemma fifo_run:
  "fifoEvents t s evs \<Longrightarrow> forwardOnly s
   \<Longrightarrow> arrivalOrdered (filter (waitingOfTier t) (patients s))
   \<Longrightarrow> arrivalOrdered (filter (waitingOfTier t) (patients (foldl step s evs)))"
proof (induction evs arbitrary: s)
  case Nil
  then show ?case by simp
next
  case (Cons e es)
  from Cons.prems have a: "fifoEvent t s e" and b: "fifoEvents t (step s e) es" by simp_all
  have c: "forwardOnly (step s e)" using Cons.prems(2) by (rule forwardOnly_step)
  have d: "arrivalOrdered (filter (waitingOfTier t) (patients (step s e)))"
    using a Cons.prems(2,3) by (rule fifo_step)
  from Cons.IH [OF b c d] show ?case by simp
qed

text \<open>
  C3 (as stated it fails, see the counterexample). The comparator has no arrival-time key;
  records that tie on status and tier keep the order they had before the sort. Two waiting
  records of one tier stand in ascending arrival time in every state the component reaches
  from its empty start, as long as a list loaded from the server has them so, no submitted
  record arrived earlier than a record already in the list, and no Emergency Input is made
  while a waiting record of tier 1 that arrived earlier is in the list; clicks and answers
  to status requests never disturb it. The Emergency Input puts its tier-1 record first,
  so for tier 1 the order breaks and for every other tier it stays.
\<close>

theorem waiting_fifo:
  "fifoEvents t initialApp evs
   \<Longrightarrow> arrivalOrdered (filter (waitingOfTier t) (patients (foldl step initialApp evs)))"
  by (rule fifo_run) (simp_all add: initialApp_def forwardOnly_def arrivalOrdered_def)

theorem waiting_fifo_witness:
  "fifoEvents 3 initialApp
     [Loaded [], Submitted (examplePatient ''a'' Waiting 3 10),
      Submitted (examplePatient ''b'' Waiting 3 20), Click 0, Respond 0 True,
      EmergencyInput 25, Submitted (examplePatient ''c'' Waiting 3 30)]
   \<and> arrivalOrdered (filter (waitingOfTier 3) (patients (foldl step initialApp
     [Loaded [], Submitted (examplePatient ''a'' Waiting 3 10),
      Submitted (examplePatient ''b'' Waiting 3 20), Click 0, Respond 0 True,
      EmergencyInput 25, Submitted (examplePatient ''c'' Waiting 3 30)])))
   \<and> map arrivalTime (filter (waitingOfTier 3) (patients (foldl step initialApp
     [Loaded [], Submitted (examplePatient ''a'' Waiting 3 10),
      Submitted (examplePatient ''b'' Waiting 3 20), Click 0, Respond 0 True,
      EmergencyInput 25, Submitted (examplePatient ''c'' Waiting 3 30)]))) = [20, 30]"
proof -
  have h: "fifoEvents 3 initialApp
     [Loaded [], Submitted (examplePatient ''a'' Waiting 3 10),
      Submitted (examplePatient ''b'' Waiting 3 20), Click 0, Respond 0 True,
      EmergencyInput 25, Submitted (examplePatient ''c'' Waiting 3 30)]"
    by (simp add: initialApp_def fetchPatients_def insertPatient_def onUpdatePatient_def
        handleStatusUpdate_def emergencyInput_def emergencyPatient_def jsSort_def
        compareQueue_def examplePatient_def arrivalOrdered_def)
  have m: "map arrivalTime (filter (waitingOfTier 3) (patients (foldl step initialApp
     [Loaded [], Submitted (examplePatient ''a'' Waiting 3 10),
      Submitted (examplePatient ''b'' Waiting 3 20), Click 0, Respond 0 True,
      EmergencyInput 25, Submitted (examplePatient ''c'' Waiting 3 30)]))) = [20, 30]"
    by (simp add: initialApp_def fetchPatients_def insertPatient_def onUpdatePatient_def
        handleStatusUpdate_def emergencyInput_def emergencyPatient_def jsSort_def
        compareQueue_def examplePatient_def waitingOfTier_def)
  show ?thesis by (intro conjI h m waiting_fifo [OF h])
qed

theorem waiting_fifo_counterexample:
  "patients (foldl step initialApp
       [Submitted (examplePatient ''x'' Waiting 1 10), EmergencyInput 50])
     = [emergencyPatient 50, examplePatient ''x'' Waiting 1 10]
   \<and> map arrivalTime (filter (waitingOfTier 1)
         [emergencyPatient 50, examplePatient ''x'' Waiting 1 10]) = [50, 10]
   \<and> \<not> arrivalOrdered (filter (waitingOfTier 1)
         [emergencyPatient 50, examplePatient ''x'' Waiting 1 10])"
  by (simp add: initialApp_def insertPatient_def emergencyInput_def emergencyPatient_def
      jsSort_def examplePatient_def waitingOfTier_def arrivalOrdered_def)

section \<open>Status updates\<close>

lemma setStatus_absent: "i \<notin> pat_id ` set q \<Longrightarrow> map (setStatus i st) q = q"
  by (induction q) (auto simp: setStatus_def)

text \<open>
  C7 (as stated it fails, see the counterexample). A status update has one failure: the
  request is refused or cannot be sent; then the list is unchanged. The client has no
  check of the id or of the target against the list. When the request is accepted, every
  record with the id gets the target status, whatever its status was, every other record
  is kept as it is, and the list is sorted with ties kept in order; with an id no record
  has, no record changes and an ordered list stays the same. A card offers only Start
  Treatment on a waiting record and Mark Complete on one in progress, so the status
  waiting is never requested; but an answer that arrives late is still applied.
\<close>

theorem status_update_outcomes:
  "handleStatusUpdate False q i st = Inl UpdateFailed
   \<and> patients (step s (Respond n False)) = patients s
   \<and> handleStatusUpdate True q i st = Inr (onUpdatePatient q i st)
   \<and> mset (onUpdatePatient q i st) = mset (map (setStatus i st) q)
   \<and> sorted_wrt queueBefore (onUpdatePatient q i st)
   \<and> filter (\<lambda>p. queueKey p = k) (onUpdatePatient q i st)
       = filter (\<lambda>p. queueKey p = k) (map (setStatus i st) q)
   \<and> (i \<notin> pat_id ` set q \<longrightarrow> map (setStatus i st) q = q)
   \<and> (i \<notin> pat_id ` set q \<and> sorted_wrt queueBefore q \<longrightarrow> onUpdatePatient q i st = q)
   \<and> statusButton Waiting = Some InProgress
   \<and> statusButton InProgress = Some Completed
   \<and> statusButton Completed = None
   \<and> forwardOnly (foldl step initialApp evs)"
proof -
  have a: "handleStatusUpdate False q i st = Inl UpdateFailed"
    by (simp add: handleStatusUpdate_def)
  have u: "patients (step s (Respond n False)) = patients s"
    by (simp add: handleStatusUpdate_def)
  have a2: "handleStatusUpdate True q i st = Inr (onUpdatePatient q i st)"
    by (simp add: handleStatusUpdate_def)
  have c: "mset (onUpdatePatient q i st) = mset (map (setStatus i st) q)"
    by (simp only: onUpdatePatient_setStatus mset_jsSort)
  have d: "sorted_wrt queueBefore (onUpdatePatient q i st)"
    by (simp only: onUpdatePatient_setStatus jsSort_ordered)
  have e: "filter (\<lambda>p. queueKey p = k) (onUpdatePatient q i st)
       = filter (\<lambda>p. queueKey p = k) (map (setStatus i st) q)"
    by (simp only: onUpdatePatient_setStatus jsSort_stable_key)
  have f: "i \<notin> pat_id ` set q \<longrightarrow> map (setStatus i st) q = q"
    using setStatus_absent by blast
  have g: "i \<notin> pat_id ` set q \<and> sorted_wrt queueBefore q \<longrightarrow> onUpdatePatient q i st = q"
  proof
    assume h: "i \<notin> pat_id ` set q \<and> sorted_wrt queueBefore q"
    then have "map (setStatus i st) q = q" using f by (elim conjE) (rule mp)
    then have "onUpdatePatient q i st = jsSort compareQueue q"
      by (simp only: onUpdatePatient_setStatus)
    also have "\<dots> = q" using h by (elim conjE) (rule jsSort_id)
    finally show "onUpdatePatient q i st = q" .
  qed
  have b: "statusButton Waiting = Some InProgress" "statusButton InProgress = Some Completed"
    "statusButton Completed = None"
    by simp_all
  have r: "forwardOnly (foldl step initialApp evs)"
    by (rule forwardOnly_run) (simp add: forwardOnly_def initialApp_def)
  show ?thesis by (intro conjI a u a2 c d e f g b r)
qed

theorem status_update_outcomes_witness:
  "''zz'' \<notin> pat_id ` set [examplePatient ''a'' Waiting 1 30, examplePatient ''b'' InProgress 3 20]
   \<and> sorted_wrt queueBefore [examplePatient ''a'' Waiting 1 30, examplePatient ''b'' InProgress 3 20]
   \<and> onUpdatePatient [examplePatient ''a'' Waiting 1 30, examplePatient ''b'' InProgress 3 20]
        ''zz'' Completed
      = [examplePatient ''a'' Waiting 1 30, examplePatient ''b'' InProgress 3 20]"
proof -
  have h: "''zz'' \<notin> pat_id ` set [examplePatient ''a'' Waiting 1 30, examplePatient ''b'' InProgress 3 20]"
    by (simp add: examplePatient_def)
  have o: "sorted_wrt queueBefore [examplePatient ''a'' Waiting 1 30, examplePatient ''b'' InProgress 3 20]"
    by (simp add: examplePatient_def queueBefore_def)
  have "onUpdatePatient [examplePatient ''a'' Waiting 1 30, examplePatient ''b'' InProgress 3 20]
        ''zz'' Completed
      = [examplePatient ''a'' Waiting 1 30, examplePatient ''b'' InProgress 3 20]"
    using status_update_outcomes
      [where i = "''zz''"
         and q = "[examplePatient ''a'' Waiting 1 30, examplePatient ''b'' InProgress 3 20]"
         and st = Completed,
       THEN conjunct2, THEN conjunct2, THEN conjunct2, THEN conjunct2, THEN conjunct2,
       THEN conjunct2, THEN conjunct2, THEN conjunct1, THEN mp, OF conjI, OF h o] .
  with h o show ?thesis by (intro conjI)
qed

theorem status_update_late_answer_counterexample:
  "map status (patients (foldl step initialApp
       [Submitted (examplePatient ''x'' Waiting 3 10), Click 0, Click 0, Respond 0 True,
        Click 0, Respond 1 True])) = [Completed]
   \<and> pending (foldl step initialApp
       [Submitted (examplePatient ''x'' Waiting 3 10), Click 0, Click 0, Respond 0 True,
        Click 0, Respond 1 True]) = [(''x'', InProgress)]
   \<and> map status (patients (foldl step initialApp
       [Submitted (examplePatient ''x'' Waiting 3 10), Click 0, Click 0, Respond 0 True,
        Click 0, Respond 1 True, Respond 0 True])) = [InProgress]"
  by (simp add: initialApp_def insertPatient_def onUpdatePatient_def handleStatusUpdate_def
      jsSort_def examplePatient_def)

section \<open>Vital-sign modifiers\<close>

text \<open>
  C4 (as stated it fails, see the counterexample). For every heart rate that is a number
  other than zero the scorer adds 8 when it is below 45 or above 130, and otherwise 4 when
  it is below 55 or above 110; the amount is one summand of the modifiers. A heart rate of
  45 or of 130 gives 4, not 8; 44 and 131 give 8.
\<close>

theorem heartRate_modifier_nonzero:
  "(x \<noteq> 0 \<longrightarrow>
      heartRateModifier (normalizeHeartRate (Num (Fin x)))
        = (if x < 45 \<or> 130 < x then 8 else if x < 55 \<or> 110 < x then 4 else 0))
   \<and> modifiers pf v
       = heartRateModifier (normalizeHeartRate (heartRate v))
         + temperatureModifier (normalizeTemperature pf (temperature v))
         + bloodPressureModifier (bloodPressure v)
   \<and> heartRateModifier (normalizeHeartRate (Num (Fin 45))) = 4
   \<and> heartRateModifier (normalizeHeartRate (Num (Fin 130))) = 4
   \<and> heartRateModifier (normalizeHeartRate (Num (Fin 44))) = 8
   \<and> heartRateModifier (normalizeHeartRate (Num (Fin 131))) = 8"
  by (simp add: heartRateModifier_def modifiers_def)

theorem heartRate_modifier_nonzero_witness:
  "(50::rat) \<noteq> 0 \<and> heartRateModifier (normalizeHeartRate (Num (Fin 50))) = 4"
proof -
  have h: "(50::rat) \<noteq> 0" by simp
  from heartRate_modifier_nonzero [of 50 "\<lambda>s. NaN" noVitals, THEN conjunct1, THEN mp, OF h]
  have "heartRateModifier (normalizeHeartRate (Num (Fin 50))) = 4" by simp
  with h show ?thesis by (intro conjI)
qed

theorem heartRate_zero_counterexample:
  "js_lt (Fin 0) 45 \<and> heartRateModifier (normalizeHeartRate (Num (Fin 0))) \<noteq> 8"
  by (simp add: heartRateModifier_def)

text \<open>
  C10. A heart rate that is present and exactly 0 gets no heart-rate modifier: the
  truthiness guard treats it like an absent one, although 0 is below 45. The modifiers and
  the priority are those of the same record without a heart rate.
\<close>

theorem heartRate_zero_no_modifier:
  "heartRateModifier (normalizeHeartRate (Num (Fin 0))) = 0
   \<and> heartRateModifier (normalizeHeartRate (Num (Fin 0)))
       = heartRateModifier (normalizeHeartRate Undefined)
   \<and> modifiers pf (v\<lparr>heartRate := Num (Fin 0)\<rparr>) = modifiers pf (v\<lparr>heartRate := Undefined\<rparr>)
   \<and> calculatePriority pf s (v\<lparr>heartRate := Num (Fin 0)\<rparr>)
       = calculatePriority pf s (v\<lparr>heartRate := Undefined\<rparr>)
   \<and> js_lt (Fin 0) 45"
  by (simp add: heartRateModifier_def modifiers_def calculatePriority_def totalScore_def)

subsection \<open>Blood pressure\<close>

lemma splitBy_no_separator: "\<forall>c \<in> set s. \<not> sep c \<Longrightarrow> splitBy sep s = [s]"
  by (induction s) simp_all

lemma length_splitBy: "length (splitBy sep s) = Suc (length (filter sep s))"
  by (induction s) (auto split: list.splits)

lemma bpPoints_NaN: "bpPoints NaN NaN = 0"
  by (simp add: bpPoints_def)

lemma bpPoints_range: "bpPoints a b \<in> {0, 3, 5, 6, 8, 11}"
  by (simp add: bpPoints_def)

lemma bloodPressureModifier_range: "bloodPressureModifier bp \<in> {0, 3, 5, 6, 8, 11}"
proof (cases bp)
  case None
  then show ?thesis by (simp add: bloodPressureModifier_def)
next
  case (Some s)
  show ?thesis
  proof (cases "s \<noteq> [] \<and> 2 \<le> length (bpParts s)")
    case True
    then have "bloodPressureModifier bp = bpPoints (bpParts s ! 0) (bpParts s ! 1)"
      by (simp add: bloodPressureModifier_def Some Let_def)
    then show ?thesis by (simp only: bpPoints_range)
  next
    case False
    then have "bloodPressureModifier bp = 0"
      by (auto simp: bloodPressureModifier_def Some Let_def)
    then show ?thesis by simp
  qed
qed

lemma bpParts_nonempty: "bpParts s = a # b # rest \<Longrightarrow> s \<noteq> []"
  by (auto simp: bpParts_def)

text \<open>
  C5 (as stated it fails, see the counterexample). The scorer splits the blood-pressure
  text at every \<open>/\<close> and \<open>-\<close>, trims each piece and reads it with \<open>parseInt\<close>, so
  there is one piece more than there are separators. A text without a separator gets no
  blood-pressure modifier, and so does a text whose first two pieces both fail to parse.
  The modifier is always one of 0, 3, 5, 6, 8, 11: nothing is raised. An absent or empty
  text and the text \<open>abc\<close> give 0.
\<close>

theorem bloodPressure_malformed:
  "length (bpParts s) = Suc (length (filter isBpSeparator s))
   \<and> ((\<forall>c \<in> set s. \<not> isBpSeparator c) \<longrightarrow> bloodPressureModifier (Some s) = 0)
   \<and> ((\<forall>n \<in> set (take 2 (bpParts s)). n = NaN) \<longrightarrow> bloodPressureModifier (Some s) = 0)
   \<and> bloodPressureModifier bp \<in> {0, 3, 5, 6, 8, 11}
   \<and> bloodPressureModifier None = 0
   \<and> bloodPressureModifier (Some []) = 0
   \<and> bloodPressureModifier (Some ''abc'') = 0
   \<and> bpParts '' 120 - 80 '' = [Fin 120, Fin 80]"
proof -
  have a: "length (bpParts s) = Suc (length (filter isBpSeparator s))"
    by (simp add: bpParts_def length_splitBy)
  have b: "(\<forall>c \<in> set s. \<not> isBpSeparator c) \<longrightarrow> bloodPressureModifier (Some s) = 0"
  proof
    assume "\<forall>c \<in> set s. \<not> isBpSeparator c"
    then have "splitBy isBpSeparator s = [s]" by (rule splitBy_no_separator)
    then show "bloodPressureModifier (Some s) = 0"
      by (simp add: bloodPressureModifier_def bpParts_def)
  qed
  have c: "(\<forall>n \<in> set (take 2 (bpParts s)). n = NaN) \<longrightarrow> bloodPressureModifier (Some s) = 0"
  proof
    assume h: "\<forall>n \<in> set (take 2 (bpParts s)). n = NaN"
    show "bloodPressureModifier (Some s) = 0"
    proof (cases "s \<noteq> [] \<and> 2 \<le> length (bpParts s)")
      case True
      then obtain x y r where p: "bpParts s = x # y # r"
        by (cases "bpParts s"; cases "tl (bpParts s)") auto
      with h have "x = NaN" "y = NaN" by simp_all
      with p True show ?thesis
        by (simp add: bloodPressureModifier_def bpPoints_NaN)
    next
      case False
      then show ?thesis by (auto simp: bloodPressureModifier_def Let_def)
    qed
  qed
  have d: "bloodPressureModifier bp \<in> {0, 3, 5, 6, 8, 11}"
    by (rule bloodPressureModifier_range)
  have e: "bloodPressureModifier None = 0" "bloodPressureModifier (Some []) = 0"
    by (simp_all add: bloodPressureModifier_def)
  have f: "bloodPressureModifier (Some ''abc'') = 0"
    by (simp add: bloodPressureModifier_def bpParts_def isBpSeparator_def)
  have g: "bpParts '' 120 - 80 '' = [Fin 120, Fin 80]"
    by (simp add: bpParts_def isBpSeparator_def parseInt_def trim_def isWhiteSpace_def
        digitValue_def digitsValue_def)
  show ?thesis by (intro conjI a b c d e f g)
qed

theorem bloodPressure_malformed_witness:
  "filter isBpSeparator ''12x'' = [] \<and> bloodPressureModifier (Some ''12x'') = 0
   \<and> take 2 (bpParts ''abc/def'') = [NaN, NaN]
   \<and> bloodPressureModifier (Some ''abc/def'') = 0"
proof -
  have f1: "filter isBpSeparator ''12x'' = []"
    by (simp add: isBpSeparator_def)
  have f2: "take 2 (bpParts ''abc/def'') = [NaN, NaN]"
    by (simp add: bpParts_def isBpSeparator_def parseInt_def trim_def isWhiteSpace_def
        digitValue_def digitsValue_def)
  have h1: "\<forall>c \<in> set ''12x''. \<not> isBpSeparator c"
    by (simp add: isBpSeparator_def)
  have h2: "\<forall>n \<in> set (take 2 (bpParts ''abc/def'')). n = NaN"
    by (simp add: bpParts_def isBpSeparator_def parseInt_def trim_def isWhiteSpace_def
        digitValue_def digitsValue_def)
  note t1 = bloodPressure_malformed [of "''12x''" None, THEN conjunct2, THEN conjunct1, THEN mp, OF h1]
  note t2 = bloodPressure_malformed [of "''abc/def''" None, THEN conjunct2, THEN conjunct2,
      THEN conjunct1, THEN mp, OF h2]
  show ?thesis by (intro conjI f1 t1 f2 t2)
qed

theorem bloodPressure_malformed_counterexample:
  "bpParts ''abc/200'' = [NaN, Fin 200] \<and> bloodPressureModifier (Some ''abc/200'') = 6"
  by (simp add: bloodPressureModifier_def bpPoints_def bpParts_def isBpSeparator_def parseInt_def
      trim_def isWhiteSpace_def digitValue_def digitsValue_def)

text \<open>
  C6. For a blood pressure whose first two pieces parse to systolic and diastolic: 6 is
  added if systolic is at least 180 or diastolic at least 120, else 3 if systolic is at
  least 160 or diastolic at least 100, never both; and 5 more if systolic is below 85 or
  diastolic below 55, on top of either. \<open>180/110\<close> gives 6, \<open>160/100\<close> gives 3, and
  \<open>200/40\<close> gives 6 + 5.
\<close>

theorem bloodPressure_rules:
  "(bpParts s = Fin sys # Fin dia # rest \<longrightarrow>
      bloodPressureModifier (Some s)
        = (if 180 \<le> sys \<or> 120 \<le> dia then 6 else if 160 \<le> sys \<or> 100 \<le> dia then 3 else 0)
          + (if sys < 85 \<or> dia < 55 then 5 else 0))
   \<and> bloodPressureModifier (Some ''180/110'') = 6
   \<and> bloodPressureModifier (Some ''160/100'') = 3
   \<and> bloodPressureModifier (Some ''200/40'') = 11"
proof -
  have a: "bpParts s = Fin sys # Fin dia # rest \<longrightarrow>
      bloodPressureModifier (Some s)
        = (if 180 \<le> sys \<or> 120 \<le> dia then 6 else if 160 \<le> sys \<or> 100 \<le> dia then 3 else 0)
          + (if sys < 85 \<or> dia < 55 then 5 else 0)"
  proof
    assume p: "bpParts s = Fin sys # Fin dia # rest"
    then have "s \<noteq> []" by (rule bpParts_nonempty)
    with p show "bloodPressureModifier (Some s)
        = (if 180 \<le> sys \<or> 120 \<le> dia then 6 else if 160 \<le> sys \<or> 100 \<le> dia then 3 else 0)
          + (if sys < 85 \<or> dia < 55 then 5 else 0)"
      by (simp add: bloodPressureModifier_def bpPoints_def)
  qed
  have b: "bloodPressureModifier (Some ''180/110'') = 6"
    "bloodPressureModifier (Some ''160/100'') = 3"
    "bloodPressureModifier (Some ''200/40'') = 11"
    by (simp_all add: bloodPressureModifier_def bpPoints_def bpParts_def isBpSeparator_def
        parseInt_def trim_def isWhiteSpace_def digitValue_def digitsValue_def)
  show ?thesis by (intro conjI a b)
qed

theorem bloodPressure_rules_witness:
  "bpParts ''185/125'' = [Fin 185, Fin 125] \<and> bloodPressureModifier (Some ''185/125'') = 6"
proof -
  have h: "bpParts ''185/125'' = [Fin 185, Fin 125]"
    by (simp add: bpParts_def isBpSeparator_def parseInt_def trim_def isWhiteSpace_def
        digitValue_def digitsValue_def)
  from bloodPressure_rules [of "''185/125''" 185 125 "[]", THEN conjunct1, THEN mp, OF h]
  have "bloodPressureModifier (Some ''185/125'') = 6" by simp
  with h show ?thesis by (intro conjI)
qed

section \<open>Monotonicity of the total\<close>

text \<open>
  C8. Raising one symptom field, with the other fields and the vitals fixed, never lowers
  the total score; this holds for each of the nine fields.
\<close>

theorem totalScore_monotone:
  "x \<le> y \<Longrightarrow>
     totalScore pf (s\<lparr>painLevel := x\<rparr>) v \<le> totalScore pf (s\<lparr>painLevel := y\<rparr>) v
   \<and> totalScore pf (s\<lparr>breathingDifficulty := x\<rparr>) v
       \<le> totalScore pf (s\<lparr>breathingDifficulty := y\<rparr>) v
   \<and> totalScore pf (s\<lparr>consciousnessLevel := x\<rparr>) v
       \<le> totalScore pf (s\<lparr>consciousnessLevel := y\<rparr>) v
   \<and> totalScore pf (s\<lparr>headache := x\<rparr>) v \<le> totalScore pf (s\<lparr>headache := y\<rparr>) v
   \<and> totalScore pf (s\<lparr>confusion := x\<rparr>) v \<le> totalScore pf (s\<lparr>confusion := y\<rparr>) v
   \<and> totalScore pf (s\<lparr>chestPain := x\<rparr>) v \<le> totalScore pf (s\<lparr>chestPain := y\<rparr>) v
   \<and> totalScore pf (s\<lparr>palpitations := x\<rparr>) v \<le> totalScore pf (s\<lparr>palpitations := y\<rparr>) v
   \<and> totalScore pf (s\<lparr>bleeding := x\<rparr>) v \<le> totalScore pf (s\<lparr>bleeding := y\<rparr>) v
   \<and> totalScore pf (s\<lparr>nausea := x\<rparr>) v \<le> totalScore pf (s\<lparr>nausea := y\<rparr>) v"
  by (simp add: totalScore_def score_def)

theorem totalScore_monotone_witness:
  "(3::int) \<le> 7
   \<and> totalScore (\<lambda>s. NaN) (noSymptoms\<lparr>bleeding := 3\<rparr>) noVitals
       \<le> totalScore (\<lambda>s. NaN) (noSymptoms\<lparr>bleeding := 7\<rparr>) noVitals
   \<and> totalScore (\<lambda>s. NaN) (noSymptoms\<lparr>bleeding := 3\<rparr>) noVitals = 9 / 2"
proof -
  have h: "(3::int) \<le> 7" by simp
  have v: "totalScore (\<lambda>s. NaN) (noSymptoms\<lparr>bleeding := 3\<rparr>) noVitals = 9 / 2"
    by (simp add: totalScore_def score_def modifiers_noVitals noSymptoms_def)
  from totalScore_monotone [OF h, of "\<lambda>s. NaN" noSymptoms noVitals]
  have "totalScore (\<lambda>s. NaN) (noSymptoms\<lparr>bleeding := 3\<rparr>) noVitals
       \<le> totalScore (\<lambda>s. NaN) (noSymptoms\<lparr>bleeding := 7\<rparr>) noVitals"
    by (elim conjE)
  with h v show ?thesis by (intro conjI)
qed

section \<open>Submission\<close>











end
